theory Spec2Isabelle
  imports Main "HOL-Library.Sublist" "HOL-Library.Word"
begin

section \<open>Strings\<close>

text \<open>
  A \<open>QString\<close> is modelled as a \<^typ>\<open>string\<close>: the list of its code units, restricted to
  the 8-bit range. The operations below are the \<open>QString\<close> members the check calls.
\<close>

text \<open>\<open>QChar::isSpace\<close> on the 8-bit range: space, the controls 0x09..0x0d, NEL and NBSP.\<close>

definition isSpace :: "char \<Rightarrow> bool" where
  "isSpace c =
     (let u = (of_char c :: nat)
      in u = 0x20 \<or> (0x09 \<le> u \<and> u \<le> 0x0d) \<or> u = 0x85 \<or> u = 0xa0)"

text \<open>\<open>QString::trimmed()\<close>: whitespace removed from both ends.\<close>

definition trimmed :: "string \<Rightarrow> string" where
  "trimmed s = rev (dropWhile isSpace (rev (dropWhile isSpace s)))"

text \<open>\<open>QString::startsWith(QChar)\<close>, case sensitive.\<close>

definition startsWith :: "string \<Rightarrow> char \<Rightarrow> bool" where
  "startsWith s c = (case s of [] \<Rightarrow> False | x # _ \<Rightarrow> x = c)"

text \<open>\<open>QString::contains(const QString &)\<close> with its default \<open>Qt::CaseSensitive\<close>.\<close>

fun contains :: "string \<Rightarrow> string \<Rightarrow> bool" where
  "contains [] sub = (sub = [])"
| "contains (c # cs) sub = (prefix sub (c # cs) \<or> contains cs sub)"

text \<open>
  \<open>QString::split(QChar)\<close> with its default \<open>Qt::KeepEmptyParts\<close>: the result is never
  empty, and a text without the separator is its only part.
\<close>

fun split :: "char \<Rightarrow> string \<Rightarrow> string list" where
  "split sep [] = [[]]"
| "split sep (c # cs) =
     (if c = sep then [] # split sep cs
      else (case split sep cs of p # ps \<Rightarrow> (c # p) # ps | [] \<Rightarrow> [[c]]))"

section \<open>The regular expression of \<open>isCppObjectBinding\<close>\<close>

text \<open>
  The fragment of regular expressions that \<open>cppRefPattern\<close> uses: a sequence of items,
  each a character class taken once or starred. \<open>hasMatch\<close> is a backtracking search for
  a match that starts at the first character (the pattern begins with \<open>^\<close>) and may end
  anywhere.
\<close>

datatype rx_item = Once "char \<Rightarrow> bool" | Star "char \<Rightarrow> bool"

fun hasMatch :: "rx_item list \<Rightarrow> string \<Rightarrow> bool" where
  "hasMatch [] s = True"
| "hasMatch (Once p # r) s = (case s of [] \<Rightarrow> False | c # cs \<Rightarrow> p c \<and> hasMatch r cs)"
| "hasMatch (Star p # r) s =
     (hasMatch r s \<or> (case s of [] \<Rightarrow> False | c # cs \<Rightarrow> p c \<and> hasMatch (Star p # r) cs))"

text \<open>The classes \<open>[a-zA-Z_]\<close>, \<open>[a-zA-Z0-9_]\<close>, \<open>\s\<close> (ASCII white space) and \<open>\.\<close>.\<close>

definition rx_identStart :: "char \<Rightarrow> bool" where
  "rx_identStart c =
     (let u = (of_char c :: nat)
      in (0x61 \<le> u \<and> u \<le> 0x7a) \<or> (0x41 \<le> u \<and> u \<le> 0x5a) \<or> u = 0x5f)"

definition rx_identChar :: "char \<Rightarrow> bool" where
  "rx_identChar c =
     (let u = (of_char c :: nat)
      in (0x61 \<le> u \<and> u \<le> 0x7a) \<or> (0x41 \<le> u \<and> u \<le> 0x5a)
         \<or> (0x30 \<le> u \<and> u \<le> 0x39) \<or> u = 0x5f)"

definition rx_space :: "char \<Rightarrow> bool" where
  "rx_space c = (let u = (of_char c :: nat) in u = 0x20 \<or> (0x09 \<le> u \<and> u \<le> 0x0d))"

definition rx_dot :: "char \<Rightarrow> bool" where
  "rx_dot c = (c = CHR ''.'')"

text \<open>\<open>^([a-zA-Z_][a-zA-Z0-9_]*\s*\.\s*[a-zA-Z_][a-zA-Z0-9_]*)\<close>\<close>

definition cppRefPattern :: "rx_item list" where
  "cppRefPattern =
     [Once rx_identStart, Star rx_identChar, Star rx_space, Once rx_dot, Star rx_space,
      Once rx_identStart, Star rx_identChar]"

section \<open>Elements, bindings and diagnostics\<close>

text \<open>
  The types of \<open>QQmlSA\<close> (\<open>Element\<close>, \<open>Binding\<close>, \<open>SourceLocation\<close>,
  \<open>FixSuggestion\<close>, the pass manager) are declared by Qt's \<open>qqmlsa.h\<close>, which the
  header of the check includes. They are modelled by what the check calls on them.

  \<open>QQmlSA::SourceLocation\<close> holds its offset and length as \<open>quint32\<close>, so the
  arithmetic on them is that of 32-bit words; \<open>setOffset\<close> changes the offset only.
\<close>

record SourceLocation =
  offset :: "32 word"
  length' :: "32 word"

definition setOffset :: "SourceLocation \<Rightarrow> 32 word \<Rightarrow> SourceLocation" where
  "setOffset loc v = loc\<lparr>offset := v\<rparr>"

text \<open>
  A \<open>QQmlSA::Element\<close> is a handle; the elements live in a store that maps each handle to
  what the element's accessors return. \<open>parentScope\<close> and \<open>childScopes\<close> return handles,
  so a parent chain may be cyclic or endless in a store the host built wrongly.
\<close>

type_synonym Element = nat

record Binding =
  expressionText :: string
  bindingSourceLocation :: SourceLocation
  containingElement :: Element

record ElementData =
  id' :: string
  baseTypeName :: string
  parentScope :: "Element option"
  childScopes :: "Element list"
  sourceLocation :: SourceLocation
  propertyBindings :: "Binding list"

type_synonym store = "Element \<Rightarrow> ElementData"

text \<open>The edits of a \<open>QQmlSA::FixSuggestion\<close>, in the order they were added.\<close>

datatype EditKind = Insertion | Replacement

record TextEdit =
  editKind :: EditKind
  editLocation :: SourceLocation
  editText :: string

record FixSuggestion =
  hint :: string
  edits :: "TextEdit list"

definition emptyFixSuggestion :: FixSuggestion where
  "emptyFixSuggestion = \<lparr>hint = [], edits = []\<rparr>"

definition setHint :: "FixSuggestion \<Rightarrow> string \<Rightarrow> FixSuggestion" where
  "setHint f h = f\<lparr>hint := h\<rparr>"

definition addInsertion :: "FixSuggestion \<Rightarrow> SourceLocation \<Rightarrow> string \<Rightarrow> FixSuggestion" where
  "addInsertion f loc s =
     f\<lparr>edits := edits f @ [\<lparr>editKind = Insertion, editLocation = loc, editText = s\<rparr>]\<rparr>"

definition addReplacement :: "FixSuggestion \<Rightarrow> SourceLocation \<Rightarrow> string \<Rightarrow> FixSuggestion" where
  "addReplacement f loc s =
     f\<lparr>edits := edits f @ [\<lparr>editKind = Replacement, editLocation = loc, editText = s\<rparr>]\<rparr>"

datatype LoggerWarningId = qmlsaCppBindingAntiPattern

record Warning =
  message :: string
  warningId :: LoggerWarningId
  location :: SourceLocation
  fixSuggestion :: FixSuggestion

text \<open>The pass manager's state is the list of the warnings emitted so far.\<close>

type_synonym PassManager = "Warning list"

definition emitWarning ::
  "string \<Rightarrow> LoggerWarningId \<Rightarrow> SourceLocation \<Rightarrow> FixSuggestion \<Rightarrow> PassManager \<Rightarrow> PassManager"
where
  "emitWarning m w loc f pm =
     pm @ [\<lparr>message = m, warningId = w, location = loc, fixSuggestion = f\<rparr>]"

section \<open>The check\<close>


definition cppTypes :: "string list" where
  "cppTypes =
     [''QObject'', ''QQuickItem'', ''QAbstractListModel'', ''QSortFilterProxyModel'',
      ''QTimer'', ''QSettings'', ''QFileSystemWatcher'', ''QNetworkAccessManager'']"

definition isCppRegisteredType :: "string \<Rightarrow> bool" where
  "isCppRegisteredType typeName = (startsWith typeName CHR ''Q'' \<or> typeName \<in> set cppTypes)"

text \<open>
  The loop of \<open>isCppRegisteredObject\<close>, on the scope it has reached. It need not end, so
  it is a partial function: \<open>None\<close> is a walk that never returns.
\<close>

partial_function (option) isCppRegisteredObject_while ::
  "store \<Rightarrow> string \<Rightarrow> Element option \<Rightarrow> bool option"
where
  "isCppRegisteredObject_while st objectId scope =
     (case scope of
        None \<Rightarrow> Some False
      | Some s \<Rightarrow>
          if list_ex (\<lambda>child. id' (st child) = objectId
                               \<and> isCppRegisteredType (baseTypeName (st child)))
               (childScopes (st s))
          then Some True
          else isCppRegisteredObject_while st objectId (parentScope (st s)))"

definition isCppRegisteredObject :: "store \<Rightarrow> string \<Rightarrow> Element \<Rightarrow> bool option" where
  "isCppRegisteredObject st objectId element =
     isCppRegisteredObject_while st objectId (parentScope (st element))"

definition isCppObjectBinding :: "store \<Rightarrow> string \<Rightarrow> Element \<Rightarrow> bool option" where
  "isCppObjectBinding st script element =
     (if \<not> hasMatch cppRefPattern script then Some False
      else isCppRegisteredObject st (trimmed (hd (split CHR ''.'' script))) element)"

text \<open>
  \<open>parseCppObjectReference\<close> returns whether it filled its two out-parameters; the model
  returns them when it did.
\<close>

definition parseCppObjectReference :: "string \<Rightarrow> (string \<times> string) option" where
  "parseCppObjectReference script =
     (case split CHR ''.'' script of
        p0 # p1 # _ \<Rightarrow> Some (trimmed p0, trimmed p1)
      | _ \<Rightarrow> None)"

definition isEnumBinding :: "string \<Rightarrow> Element \<Rightarrow> bool" where
  "isEnumBinding script element =
     (case parseCppObjectReference script of
        Some (objectId, propertyName) \<Rightarrow>
          contains propertyName ''State'' \<or> contains propertyName ''Mode''
          \<or> contains propertyName ''Type'' \<or> contains propertyName ''Policy''
          \<or> contains script ''::''
      | None \<Rightarrow> False)"

text \<open>The loop of \<open>getRootElement\<close>, a partial function for the same reason.\<close>

partial_function (option) getRootElement_while :: "store \<Rightarrow> Element \<Rightarrow> Element option" where
  "getRootElement_while st element =
     (case parentScope (st element) of
        Some p \<Rightarrow> getRootElement_while st p
      | None \<Rightarrow> Some element)"

definition getRootElement :: "store \<Rightarrow> Binding \<Rightarrow> Element option" where
  "getRootElement st binding = getRootElement_while st (containingElement binding)"

text \<open>
  \<open>QString::arg\<close> with several arguments replaces the place markers in one pass, so the
  texts are plain concatenations.
\<close>

definition aliasNameOf :: "string \<Rightarrow> string \<Rightarrow> string" where
  "aliasNameOf objectId propertyName = ''als_'' @ objectId @ ''_'' @ propertyName"

definition emitCppBindingWarning ::
  "store \<Rightarrow> Binding \<Rightarrow> string \<Rightarrow> string \<Rightarrow> PassManager \<Rightarrow> PassManager option"
where
  "emitCppBindingWarning st binding objectId propertyName pm =
     (let aliasName = aliasNameOf objectId propertyName;
          message =
            ''Property binding to C++ object detected. Consider using property alias instead.'';
          fix0 = setHint emptyFixSuggestion
                   (''Add property alias: property alias '' @ aliasName @ '': '' @ objectId
                    @ ''.'' @ propertyName)
      in case getRootElement st binding of
           None \<Rightarrow> None
         | Some rootElement \<Rightarrow>
             (let insertLocation0 = sourceLocation (st rootElement);
                  insertLocation =
                    setOffset insertLocation0
                      (offset insertLocation0 + length' insertLocation0 - 1);
                  fix1 = addInsertion fix0 insertLocation
                           ([CHR 0x0A] @ ''    property alias '' @ aliasName @ '': '' @ objectId
                            @ ''.'' @ propertyName);
                  fix2 = addReplacement fix1 (bindingSourceLocation binding) aliasName
              in Some (emitWarning message qmlsaCppBindingAntiPattern
                         (bindingSourceLocation binding) fix2 pm)))"

text \<open>
  \<open>cppObjectReference\<close> names \<open>element\<close> and \<open>binding\<close> without declaring them; they are
  parameters here.
\<close>

definition cppObjectReference ::
  "store \<Rightarrow> Element \<Rightarrow> Binding \<Rightarrow> string \<Rightarrow> string \<Rightarrow> string \<Rightarrow> PassManager
   \<Rightarrow> PassManager option"
where
  "cppObjectReference st element binding script objectId propertyName pm =
     (if \<not> isEnumBinding script element
      then emitCppBindingWarning st binding objectId propertyName pm
      else Some pm)"

section \<open>The entry point\<close>

text \<open>
  Modelled from the spec: \<open>checkCppObjectBindings\<close>, the function that \<open>run\<close> calls,
  is not among the source files. Following section 4.2 of the specification, it visits the
  bindings of the element in order; a binding whose expression text
  \<open>isCppObjectBinding\<close> accepts and \<open>parseCppObjectReference\<close> splits is handed to
  \<open>cppObjectReference\<close>, which emits the warning unless the access is enum-like. Every
  other binding leaves the pass manager as it was.
\<close>

definition checkCppObjectBinding ::
  "store \<Rightarrow> Element \<Rightarrow> Binding \<Rightarrow> PassManager \<Rightarrow> PassManager option"
where
  "checkCppObjectBinding st element binding pm =
     (let script = expressionText binding
      in case isCppObjectBinding st script element of
           None \<Rightarrow> None
         | Some False \<Rightarrow> Some pm
         | Some True \<Rightarrow>
             (case parseCppObjectReference script of
                None \<Rightarrow> Some pm
              | Some (objectId, propertyName) \<Rightarrow>
                  cppObjectReference st element binding script objectId propertyName pm))"

fun checkCppObjectBindings_for ::
  "store \<Rightarrow> Element \<Rightarrow> Binding list \<Rightarrow> PassManager \<Rightarrow> PassManager option"
where
  "checkCppObjectBindings_for st element [] pm = Some pm"
| "checkCppObjectBindings_for st element (binding # rest) pm =
     (case checkCppObjectBinding st element binding pm of
        None \<Rightarrow> None
      | Some pm' \<Rightarrow> checkCppObjectBindings_for st element rest pm')"

definition checkCppObjectBindings :: "store \<Rightarrow> Element \<Rightarrow> PassManager \<Rightarrow> PassManager option" where
  "checkCppObjectBindings st element pm =
     checkCppObjectBindings_for st element (propertyBindings (st element)) pm"

definition run :: "store \<Rightarrow> Element \<Rightarrow> PassManager \<Rightarrow> PassManager option" where
  "run st element pm = checkCppObjectBindings st element pm"

section \<open>Notions the properties are stated with\<close>

text \<open>The parent links of a store, as a relation from the parent to the child.\<close>

definition parentRel :: "store \<Rightarrow> (Element \<times> Element) set" where
  "parentRel st = {(p, c). parentScope (st c) = Some p}"

text \<open>The test that the loop of \<open>isCppRegisteredObject\<close> makes on one scope.\<close>

definition declaresNativeChild :: "store \<Rightarrow> string \<Rightarrow> Element \<Rightarrow> bool" where
  "declaresNativeChild st objectId s =
     list_ex (\<lambda>child. id' (st child) = objectId \<and> isCppRegisteredType (baseTypeName (st child)))
       (childScopes (st s))"

text \<open>The offsets of the insertion edits that the warnings of a pass manager carry.\<close>

definition insertionOffsets :: "PassManager \<Rightarrow> 32 word list" where
  "insertionOffsets pm =
     concat (map (\<lambda>w. map (\<lambda>e. offset (editLocation e))
                         (filter (\<lambda>e. editKind e = Insertion) (edits (fixSuggestion w)))) pm)"

text \<open>The texts of the insertion edits that the warnings of a pass manager carry.\<close>

definition insertionTexts :: "PassManager \<Rightarrow> string list" where
  "insertionTexts pm =
     concat (map (\<lambda>w. map editText
                         (filter (\<lambda>e. editKind e = Insertion) (edits (fixSuggestion w)))) pm)"

text \<open>
  The search as section 4.1 of the specification words it, for comparison with
  \<open>isCppRegisteredObject\<close>: the first scope that declares the identifier decides.
\<close>

partial_function (option) spec_isNativeObjectReference_walk ::
  "store \<Rightarrow> string \<Rightarrow> Element option \<Rightarrow> bool option"
where
  "spec_isNativeObjectReference_walk st objectId scope =
     (case scope of
        None \<Rightarrow> Some False
      | Some s \<Rightarrow>
          (case find (\<lambda>child. id' (st child) = objectId) (childScopes (st s)) of
             Some child \<Rightarrow> Some (isCppRegisteredType (baseTypeName (st child)))
           | None \<Rightarrow> spec_isNativeObjectReference_walk st objectId (parentScope (st s))))"

definition spec_isNativeObjectReference :: "store \<Rightarrow> string \<Rightarrow> Element \<Rightarrow> bool option" where
  "spec_isNativeObjectReference st objectId element =
     spec_isNativeObjectReference_walk st objectId (parentScope (st element))"

text \<open>
  The pattern as section 4.2 of the specification words it, for comparison with
  \<open>cppRefPattern\<close>: optional whitespace comes first.
\<close>

definition spec_referencePattern :: "rx_item list" where
  "spec_referencePattern = Star rx_space # cppRefPattern"

text \<open>An identifier, as the pattern reads one.\<close>

definition isIdentifier :: "string \<Rightarrow> bool" where
  "isIdentifier s = (case s of [] \<Rightarrow> False | c # cs \<Rightarrow> rx_identStart c \<and> list_all rx_identChar cs)"

section \<open>Example stores\<close>

definition loc :: "32 word \<Rightarrow> 32 word \<Rightarrow> SourceLocation" where
  "loc off len = \<lparr>offset = off, length' = len\<rparr>"

definition noElement :: ElementData where
  "noElement =
     \<lparr>id' = [], baseTypeName = [], parentScope = None, childScopes = [],
      sourceLocation = loc 0 0, propertyBindings = []\<rparr>"

text \<open>
  A root item (handle 0) with two children: the timer \<open>cppObj\<close> (handle 1) and an item
  (handle 2) that binds \<open>interval\<close> to \<open>cppObj.interval\<close>. The root has the same binding.
\<close>

definition intervalBinding :: Binding where
  "intervalBinding =
     \<lparr>expressionText = ''cppObj.interval'', bindingSourceLocation = loc 60 15,
      containingElement = 2\<rparr>"

definition rootBinding :: Binding where
  "rootBinding =
     \<lparr>expressionText = ''cppObj.interval'', bindingSourceLocation = loc 80 15,
      containingElement = 0\<rparr>"

definition timerStore :: store where
  "timerStore =
     (\<lambda>_. noElement)
     (0 := \<lparr>id' = ''root'', baseTypeName = ''Item'', parentScope = None, childScopes = [1, 2],
            sourceLocation = loc 0 100, propertyBindings = [rootBinding]\<rparr>,
      1 := \<lparr>id' = ''cppObj'', baseTypeName = ''QTimer'', parentScope = Some 0, childScopes = [],
            sourceLocation = loc 10 30, propertyBindings = []\<rparr>,
      2 := \<lparr>id' = ''view'', baseTypeName = ''Item'', parentScope = Some 0, childScopes = [],
            sourceLocation = loc 45 35, propertyBindings = [intervalBinding]\<rparr>)"

text \<open>
  Shadowing: the root (handle 0) declares \<open>x\<close> as a \<open>QTimer\<close> (handle 1); the inner item
  (handle 2) declares \<open>x\<close> again as a plain \<open>MyItem\<close> (handle 3), next to the element
  (handle 4) that binds to \<open>x.y\<close>.
\<close>

definition shadowBinding :: Binding where
  "shadowBinding =
     \<lparr>expressionText = ''x.y'', bindingSourceLocation = loc 70 3, containingElement = 4\<rparr>"

definition shadowStore :: store where
  "shadowStore =
     (\<lambda>_. noElement)
     (0 := \<lparr>id' = ''root'', baseTypeName = ''Item'', parentScope = None, childScopes = [1, 2],
            sourceLocation = loc 0 100, propertyBindings = []\<rparr>,
      1 := \<lparr>id' = ''x'', baseTypeName = ''QTimer'', parentScope = Some 0, childScopes = [],
            sourceLocation = loc 10 10, propertyBindings = []\<rparr>,
      2 := \<lparr>id' = ''inner'', baseTypeName = ''Item'', parentScope = Some 0,
            childScopes = [3, 4], sourceLocation = loc 30 60, propertyBindings = []\<rparr>,
      3 := \<lparr>id' = ''x'', baseTypeName = ''MyItem'', parentScope = Some 2, childScopes = [],
            sourceLocation = loc 40 10, propertyBindings = []\<rparr>,
      4 := \<lparr>id' = ''user'', baseTypeName = ''Item'', parentScope = Some 2, childScopes = [],
            sourceLocation = loc 60 20, propertyBindings = [shadowBinding]\<rparr>)"

definition userBinding :: Binding where
  "userBinding =
     \<lparr>expressionText = ''user.y'', bindingSourceLocation = loc 74 6, containingElement = 4\<rparr>"

text \<open>A root (handle 0) whose source span is empty and starts at offset 5.\<close>

definition emptySpanBinding :: Binding where
  "emptySpanBinding =
     \<lparr>expressionText = ''cppObj.interval'', bindingSourceLocation = loc 7 15,
      containingElement = 1\<rparr>"

definition emptySpanStore :: store where
  "emptySpanStore =
     (\<lambda>_. noElement)
     (0 := \<lparr>id' = ''root'', baseTypeName = ''Item'', parentScope = None, childScopes = [1],
            sourceLocation = loc 5 0, propertyBindings = []\<rparr>,
      1 := \<lparr>id' = ''view'', baseTypeName = ''Item'', parentScope = Some 0, childScopes = [],
            sourceLocation = loc 5 0, propertyBindings = [emptySpanBinding]\<rparr>)"

text \<open>Two elements (handles 0 and 1) that are each other's parent scope.\<close>

definition cyclicStore :: store where
  "cyclicStore =
     (\<lambda>_. noElement)
     (0 := noElement\<lparr>parentScope := Some 1\<rparr>, 1 := noElement\<lparr>parentScope := Some 0\<rparr>)"

text \<open>A store with the bindings of one element replaced.\<close>

definition withBindings :: "store \<Rightarrow> Element \<Rightarrow> Binding list \<Rightarrow> store" where
  "withBindings st element bs = st(element := (st element)\<lparr>propertyBindings := bs\<rparr>)"


definition qualifiedBinding :: Binding where
  "qualifiedBinding =
     \<lparr>expressionText = ''cppObj.interval == Timer::Fast'', bindingSourceLocation = loc 60 30,
      containingElement = 2\<rparr>"




definition leadingSpaceBinding :: Binding where
  "leadingSpaceBinding =
     \<lparr>expressionText = '' cppObj.interval'', bindingSourceLocation = loc 60 16,
      containingElement = 2\<rparr>"

section \<open>String lemmas\<close>

lemma cppTypes_start_with_Q: "list_all (\<lambda>t. startsWith t CHR ''Q'') cppTypes"
  by (simp add: cppTypes_def startsWith_def)

lemma contains_iff_sublist: "contains s sub = sublist sub s"
  by (induction s) (simp_all add: sublist_Cons_right)

lemma contains_set: "contains s sub \<Longrightarrow> set sub \<subseteq> set s"
  by (auto simp: contains_iff_sublist dest: set_mono_sublist)

lemma split_not_Nil: "split sep s \<noteq> []"
  by (induction s) (auto split: list.splits)

lemma split_no_sep: "sep \<notin> set a \<Longrightarrow> split sep a = [a]"
  by (induction a) auto

lemma split_at_first_sep: "sep \<notin> set a \<Longrightarrow> split sep (a @ sep # r) = a # split sep r"
  by (induction a) auto

lemma split_two_parts:
  assumes "sep \<in> set s"
  shows "\<exists>p1 rest. split sep s = takeWhile (\<lambda>c. c \<noteq> sep) s # p1 # rest"
proof -
  from assms obtain a r where s: "s = a @ sep # r" and a: "sep \<notin> set a"
    by (auto dest: split_list_first)
  from a have "takeWhile (\<lambda>c. c \<noteq> sep) s = a"
    unfolding s by (induction a) auto
  moreover obtain p1 rest where "split sep r = p1 # rest"
    using split_not_Nil [of sep r] by (cases "split sep r") auto
  ultimately show ?thesis
    using a by (simp add: s split_at_first_sep)
qed

lemma rx_identStart_identChar: "rx_identStart c \<Longrightarrow> rx_identChar c"
  by (auto simp: rx_identStart_def rx_identChar_def Let_def)

lemma rx_identChar_not_space: "rx_identChar c \<Longrightarrow> \<not> rx_space c"
  by (auto simp: rx_space_def rx_identChar_def Let_def)

lemma rx_identChar_not_isSpace: "rx_identChar c \<Longrightarrow> \<not> isSpace c"
  by (auto simp: isSpace_def rx_identChar_def Let_def)

lemma rx_identChar_not_dot: "rx_identChar c \<Longrightarrow> c \<noteq> CHR ''.''"
  by (auto simp: rx_identChar_def Let_def)

lemma rx_identChar_not_colon: "rx_identChar c \<Longrightarrow> c \<noteq> CHR '':''"
  by (auto simp: rx_identChar_def Let_def)

lemma rx_space_not_dot: "rx_space c \<Longrightarrow> c \<noteq> CHR ''.''"
  by (auto simp: rx_space_def Let_def)

lemma rx_space_isSpace: "rx_space c \<Longrightarrow> isSpace c"
  by (auto simp: rx_space_def isSpace_def Let_def)

lemma hasMatch_Star_skip:
  assumes "\<And>c cs. p c \<Longrightarrow> \<not> hasMatch R (c # cs)"
  shows "hasMatch (Star p # R) s = hasMatch R (dropWhile p s)"
  using assms by (induction s) auto

lemma hasMatch_Star_only: "hasMatch [Star p] s"
  by (cases s) simp_all

lemma hasMatch_identifier:
  "hasMatch [Once rx_identStart, Star rx_identChar] s =
     (case s of [] \<Rightarrow> False | e # _ \<Rightarrow> rx_identStart e)"
  by (cases s) (simp_all add: hasMatch_Star_only del: hasMatch.simps(3))

lemma hasMatch_spaces_identifier:
  "hasMatch [Star rx_space, Once rx_identStart, Star rx_identChar] s =
     hasMatch [Once rx_identStart, Star rx_identChar] (dropWhile rx_space s)"
  by (rule hasMatch_Star_skip) (auto dest: rx_identStart_identChar rx_identChar_not_space)

lemma hasMatch_dot_identifier:
  "hasMatch [Once rx_dot, Star rx_space, Once rx_identStart, Star rx_identChar] s =
     (case s of
        [] \<Rightarrow> False
      | d # r \<Rightarrow>
          d = CHR ''.'' \<and>
          (case dropWhile rx_space r of [] \<Rightarrow> False | e # _ \<Rightarrow> rx_identStart e))"
proof (cases s)
  case Nil
  then show ?thesis by simp
next
  case (Cons d r)
  have "hasMatch [Once rx_dot, Star rx_space, Once rx_identStart, Star rx_identChar] (d # r) =
          (rx_dot d \<and> hasMatch [Star rx_space, Once rx_identStart, Star rx_identChar] r)"
    by (simp only: hasMatch.simps(2) list.case)
  then show ?thesis
    by (simp only: Cons hasMatch_spaces_identifier hasMatch_identifier rx_dot_def list.case)
qed

lemma hasMatch_spaces_dot_identifier:
  "hasMatch [Star rx_space, Once rx_dot, Star rx_space, Once rx_identStart, Star rx_identChar] s =
     hasMatch [Once rx_dot, Star rx_space, Once rx_identStart, Star rx_identChar]
       (dropWhile rx_space s)"
  by (rule hasMatch_Star_skip) (auto simp: rx_dot_def dest: rx_space_not_dot)

lemma hasMatch_tail:
  "hasMatch [Star rx_identChar, Star rx_space, Once rx_dot, Star rx_space, Once rx_identStart,
       Star rx_identChar] s =
     hasMatch [Star rx_space, Once rx_dot, Star rx_space, Once rx_identStart, Star rx_identChar]
       (dropWhile rx_identChar s)"
  by (rule hasMatch_Star_skip)
    (auto simp: rx_dot_def dest: rx_identChar_not_dot rx_identChar_not_space)

text \<open>The search of \<open>cppRefPattern\<close> never has to backtrack.\<close>

lemma hasMatch_cppRefPattern:
  "hasMatch cppRefPattern s =
     (case s of
        [] \<Rightarrow> False
      | c # cs \<Rightarrow>
          rx_identStart c \<and>
          (case dropWhile rx_space (dropWhile rx_identChar cs) of
             [] \<Rightarrow> False
           | d # r \<Rightarrow>
               d = CHR ''.'' \<and>
               (case dropWhile rx_space r of [] \<Rightarrow> False | e # _ \<Rightarrow> rx_identStart e)))"
proof (cases s)
  case Nil
  then show ?thesis by (simp add: cppRefPattern_def)
next
  case (Cons c cs)
  have "hasMatch cppRefPattern (c # cs) =
          (rx_identStart c \<and>
           hasMatch [Star rx_identChar, Star rx_space, Once rx_dot, Star rx_space,
             Once rx_identStart, Star rx_identChar] cs)"
    by (simp only: cppRefPattern_def hasMatch.simps(2) list.case)
  then show ?thesis
    by (simp only: Cons hasMatch_tail hasMatch_spaces_dot_identifier hasMatch_dot_identifier
          list.case)
qed

lemma trimmed_word_spaces:
  assumes "i \<noteq> []" and "list_all (\<lambda>c. \<not> isSpace c) i" and "list_all isSpace w"
  shows "trimmed (i @ w) = i"
proof -
  from assms(1,2) obtain c t where i: "i = c # t" and c: "\<not> isSpace c"
    by (cases i) auto
  from assms(1,2) obtain l b where r: "rev i = l # b" and l: "\<not> isSpace l"
    by (cases "rev i") (auto simp: list_all_iff)
  have "dropWhile isSpace (i @ w) = i @ w"
    by (simp add: i c)
  moreover have "dropWhile isSpace (rev w @ rev i) = dropWhile isSpace (rev i)"
    using assms(3) by (intro dropWhile_append2) (simp add: list_all_iff)
  moreover have "dropWhile isSpace (rev i) = rev i"
    by (simp add: r l)
  ultimately show ?thesis
    by (simp add: trimmed_def)
qed


lemma parse_with_dot:
  assumes "CHR ''.'' \<in> set s"
  shows "\<exists>p1 rest. split CHR ''.'' s = takeWhile (\<lambda>c. c \<noteq> CHR ''.'') s # p1 # rest
           \<and> parseCppObjectReference s
               = Some (trimmed (takeWhile (\<lambda>c. c \<noteq> CHR ''.'') s), trimmed p1)"
  using split_two_parts [OF assms] by (auto simp: parseCppObjectReference_def)

lemma parse_without_dot: "CHR ''.'' \<notin> set s \<Longrightarrow> parseCppObjectReference s = None"
  by (simp add: parseCppObjectReference_def split_no_sep)

lemma hasMatch_has_dot:
  assumes "hasMatch cppRefPattern s"
  shows "CHR ''.'' \<in> set s"
proof -
  from assms obtain c cs r where "s = c # cs"
    and "dropWhile rx_space (dropWhile rx_identChar cs) = CHR ''.'' # r"
    by (auto simp: hasMatch_cppRefPattern split: list.splits)
  then have "CHR ''.'' \<in> set (dropWhile rx_space (dropWhile rx_identChar cs))"
    by simp
  then have "CHR ''.'' \<in> set cs"
    by (blast dest: set_dropWhileD)
  with \<open>s = c # cs\<close> show ?thesis by simp
qed

lemma dropWhile_prefix_all: "list_all P t \<Longrightarrow> dropWhile P (t @ u) = dropWhile P u"
  by (induction t) auto

lemma takeWhile_prefix_all: "list_all P t \<Longrightarrow> takeWhile P (t @ u) = t @ takeWhile P u"
  by (induction t) auto

lemma list_all_takeWhile: "list_all P (takeWhile P xs)"
  by (induction xs) auto

lemma isIdentifier_no_dot: "isIdentifier s \<Longrightarrow> CHR ''.'' \<notin> set s"
  by (cases s)
    (auto simp: isIdentifier_def list_all_iff dest: rx_identChar_not_dot rx_identStart_identChar)

lemma isIdentifier_no_colon: "isIdentifier s \<Longrightarrow> CHR '':'' \<notin> set s"
  by (cases s)
    (auto simp: isIdentifier_def list_all_iff dest: rx_identChar_not_colon rx_identStart_identChar)

lemma isIdentifier_trimmed: 
  assumes "isIdentifier s" 
  shows "trimmed s = s"
proof -
  from assms have "s \<noteq> []" and "list_all (\<lambda>c. \<not> isSpace c) s"
    by (cases s; auto simp: isIdentifier_def list_all_iff
        dest: rx_identChar_not_isSpace rx_identStart_identChar)+
  then show ?thesis
    using trimmed_word_spaces [of s "[]"] by simp
qed

text \<open>What a match of \<open>cppRefPattern\<close> says about the text.\<close>

lemma hasMatch_cppRefPattern_parts:
  assumes "hasMatch cppRefPattern s"
  shows "\<exists>c t w r e es. s = (c # t) @ w @ ''.'' @ r \<and> rx_identStart c \<and> list_all rx_identChar t
           \<and> list_all rx_space w \<and> dropWhile rx_space r = e # es \<and> rx_identStart e"
proof -
  from assms obtain c cs r e es where s: "s = c # cs" and c: "rx_identStart c"
    and d: "dropWhile rx_space (dropWhile rx_identChar cs) = CHR ''.'' # r"
    and e: "dropWhile rx_space r = e # es" "rx_identStart e"
    by (auto simp: hasMatch_cppRefPattern split: list.splits)
  let ?t = "takeWhile rx_identChar cs" and ?u = "dropWhile rx_identChar cs"
  let ?w = "takeWhile rx_space ?u"
  have "cs = ?t @ ?u" by simp
  also have "?u = ?w @ dropWhile rx_space ?u" by simp
  finally have "s = (c # ?t) @ ?w @ ''.'' @ r"
    by (simp only: s d) simp
  then show ?thesis
    using c e by (blast intro: list_all_takeWhile)
qed

lemma hasMatch_cppRefPattern_shape:
  "hasMatch cppRefPattern s \<longleftrightarrow>
     (\<exists>i w1 w2 j rest. s = i @ w1 @ ''.'' @ w2 @ j @ rest \<and> isIdentifier i
        \<and> list_all rx_space w1 \<and> list_all rx_space w2 \<and> isIdentifier j)"
proof
  assume "hasMatch cppRefPattern s"
  from hasMatch_cppRefPattern_parts [OF this] obtain c t w r e es
    where s: "s = (c # t) @ w @ ''.'' @ r" and c: "rx_identStart c" "list_all rx_identChar t"
      and w: "list_all rx_space w" and e: "dropWhile rx_space r = e # es" "rx_identStart e"
    by blast
  have "r = takeWhile rx_space r @ [e] @ es"
    using e(1) takeWhile_dropWhile_id [of rx_space r] by simp
  then have "s = (c # t) @ w @ ''.'' @ takeWhile rx_space r @ [e] @ es"
    using s by simp
  moreover have "isIdentifier (c # t)" "isIdentifier [e]"
    using c e(2) by (simp_all add: isIdentifier_def)
  ultimately show "\<exists>i w1 w2 j rest. s = i @ w1 @ ''.'' @ w2 @ j @ rest \<and> isIdentifier i
        \<and> list_all rx_space w1 \<and> list_all rx_space w2 \<and> isIdentifier j"
    using w list_all_takeWhile [of rx_space r] by blast
next
  assume "\<exists>i w1 w2 j rest. s = i @ w1 @ ''.'' @ w2 @ j @ rest \<and> isIdentifier i
        \<and> list_all rx_space w1 \<and> list_all rx_space w2 \<and> isIdentifier j"
  then obtain i w1 w2 j rest where s: "s = i @ w1 @ ''.'' @ w2 @ j @ rest"
    and i: "isIdentifier i" and w1: "list_all rx_space w1" and w2: "list_all rx_space w2"
    and j: "isIdentifier j"
    by blast
  from i obtain c t where ct: "i = c # t" "rx_identStart c" "list_all rx_identChar t"
    by (cases i) (auto simp: isIdentifier_def)
  from j obtain e es where ees: "j = e # es" "rx_identStart e"
    by (cases j) (auto simp: isIdentifier_def)
  let ?X = "w2 @ j @ rest"
  have "dropWhile rx_identChar (t @ w1 @ CHR ''.'' # ?X) = dropWhile rx_identChar (w1 @ CHR ''.'' # ?X)"
    using ct(3) by (rule dropWhile_prefix_all)
  also have "\<dots> = w1 @ CHR ''.'' # ?X"
    using w1 by (cases w1) (auto dest: rx_identChar_not_space rx_identChar_not_dot)
  finally have 1: "dropWhile rx_identChar (t @ w1 @ CHR ''.'' # ?X) = w1 @ CHR ''.'' # ?X" .
  have 2: "dropWhile rx_space (w1 @ CHR ''.'' # ?X) = CHR ''.'' # ?X"
    using w1 by (auto simp: dropWhile_prefix_all dest: rx_space_not_dot)
  have 3: "dropWhile rx_space ?X = e # es @ rest"
    using w2 ees by (auto simp: dropWhile_prefix_all dest: rx_identStart_identChar rx_identChar_not_space)
  show "hasMatch cppRefPattern s"
    unfolding hasMatch_cppRefPattern s ct(1) by (simp add: 1 2 3 ct(2) ees(2))
qed

lemma candidate_of_match:
  assumes "hasMatch cppRefPattern s"
  shows "\<exists>p0 p1 rest. split CHR ''.'' s = p0 # p1 # rest
           \<and> parseCppObjectReference s = Some (trimmed p0, trimmed p1)
           \<and> trimmed p0 = takeWhile rx_identChar s \<and> isIdentifier (trimmed p0)"
proof -
  from hasMatch_cppRefPattern_parts [OF assms] obtain c t w r
    where s: "s = (c # t) @ w @ ''.'' @ r" and c: "rx_identStart c" "list_all rx_identChar t"
      and w: "list_all rx_space w"
    by blast
  let ?a = "(c # t) @ w"
  have ident: "list_all rx_identChar (c # t)"
    using c by (simp add: rx_identStart_identChar)
  have nodot: "CHR ''.'' \<notin> set ?a"
    using ident w by (auto simp: list_all_iff dest: rx_identChar_not_dot rx_space_not_dot)
  obtain p1 rest where r: "split CHR ''.'' r = p1 # rest"
    using split_not_Nil [of "CHR ''.''" r] by (cases "split CHR ''.'' r") auto
  have sp: "split CHR ''.'' s = ?a # p1 # rest"
    using split_at_first_sep [OF nodot, of r] by (simp add: s r)
  have tr: "trimmed ?a = c # t"
    using ident w by (intro trimmed_word_spaces)
      (auto simp: list_all_iff dest: rx_identChar_not_isSpace rx_space_isSpace)
  have "takeWhile rx_identChar (w @ ''.'' @ r) = []"
    using w by (cases w) (auto dest: rx_identChar_not_space rx_identChar_not_dot)
  then have tk: "takeWhile rx_identChar s = c # t"
    unfolding s using takeWhile_prefix_all [OF ident, of "w @ ''.'' @ r"] by simp
  have "isIdentifier (c # t)"
    using c by (simp add: isIdentifier_def)
  with sp tr tk show ?thesis
    by (simp add: parseCppObjectReference_def)
qed

section \<open>Parent chains\<close>

lemma wf_parentRel: "finite (parentRel st) \<Longrightarrow> acyclic (parentRel st) \<Longrightarrow> wf (parentRel st)"
  by (rule finite_acyclic_wf)

lemma parentRel_iff: "(p, c) \<in> parentRel st \<longleftrightarrow> parentScope (st c) = Some p"
  by (simp add: parentRel_def)

lemma parentRel_bounded:
  assumes "\<And>c p. parentScope (st c) = Some p \<Longrightarrow> p < c \<and> c < n"
  shows "finite (parentRel st)" and "acyclic (parentRel st)"
proof -
  have "parentRel st \<subseteq> {..<n} \<times> {..<n}"
  proof
    fix x assume "x \<in> parentRel st"
    then obtain p c where "x = (p, c)" "parentScope (st c) = Some p"
      by (auto simp: parentRel_def)
    with assms [of c p] show "x \<in> {..<n} \<times> {..<n}"
      by simp
  qed
  then show "finite (parentRel st)"
    by (rule finite_subset) simp
  have "parentRel st \<subseteq> less_than"
    using assms by (auto simp: parentRel_iff)
  then have "wf (parentRel st)"
    by (rule wf_subset [OF wf_less_than])
  then show "acyclic (parentRel st)"
    by (rule wf_acyclic)
qed

lemma timerStore_parents: "parentScope (timerStore c) = Some p \<Longrightarrow> p < c \<and> c < 3"
  by (simp add: timerStore_def noElement_def split: if_splits)

lemma shadowStore_parents: "parentScope (shadowStore c) = Some p \<Longrightarrow> p < c \<and> c < 5"
  by (simp add: shadowStore_def noElement_def split: if_splits)

lemma emptySpanStore_parents: "parentScope (emptySpanStore c) = Some p \<Longrightarrow> p < c \<and> c < 2"
  by (simp add: emptySpanStore_def noElement_def split: if_splits)

lemma getRootElement_while_ends:
  assumes "wf (parentRel st)"
  shows "\<exists>r. getRootElement_while st e = Some r \<and> parentScope (st r) = None
              \<and> (r, e) \<in> (parentRel st)\<^sup>*"
  using assms
proof (induction e rule: wf_induct_rule)
  case (less e)
  show ?case
  proof (cases "parentScope (st e)")
    case None
    then show ?thesis
      by (subst getRootElement_while.simps) simp
  next
    case (Some p)
    then have "(p, e) \<in> parentRel st"
      by (simp add: parentRel_iff)
    with less.IH obtain r where r: "getRootElement_while st p = Some r"
      "parentScope (st r) = None" "(r, p) \<in> (parentRel st)\<^sup>*"
      by blast
    from r(3) \<open>(p, e) \<in> parentRel st\<close> have "(r, e) \<in> (parentRel st)\<^sup>*"
      by (rule rtrancl_into_rtrancl)
    with r Some show ?thesis
      by (subst getRootElement_while.simps) simp
  qed
qed

lemma isCppRegisteredObject_while_unfold:
  "isCppRegisteredObject_while st objectId (Some s) =
     (if declaresNativeChild st objectId s then Some True
      else isCppRegisteredObject_while st objectId (parentScope (st s)))"
  by (subst isCppRegisteredObject_while.simps) (simp add: declaresNativeChild_def)

lemma isCppRegisteredObject_while_None:
  "isCppRegisteredObject_while st objectId None = Some False"
  by (subst isCppRegisteredObject_while.simps) simp

lemma isCppRegisteredObject_while_char:
  assumes "wf (parentRel st)"
  shows "isCppRegisteredObject_while st objectId (Some s) =
           Some (\<exists>a. (a, s) \<in> (parentRel st)\<^sup>* \<and> declaresNativeChild st objectId a)"
  using assms
proof (induction s rule: wf_induct_rule)
  case (less s)
  show ?case
  proof (cases "declaresNativeChild st objectId s")
    case True
    then show ?thesis
      by (auto simp: isCppRegisteredObject_while_unfold)
  next
    case False
    show ?thesis
    proof (cases "parentScope (st s)")
      case None
      have "\<And>a. (a, s) \<in> (parentRel st)\<^sup>* \<Longrightarrow> a = s"
      proof -
        fix a assume "(a, s) \<in> (parentRel st)\<^sup>*"
        then show "a = s"
          using None by (cases rule: rtranclE) (simp_all add: parentRel_iff)
      qed
      with False None show ?thesis
        by (auto simp: isCppRegisteredObject_while_unfold isCppRegisteredObject_while_None)
    next
      case (Some p)
      then have ps: "(p, s) \<in> parentRel st"
        by (simp add: parentRel_iff)
      have "(\<exists>a. (a, s) \<in> (parentRel st)\<^sup>* \<and> declaresNativeChild st objectId a)
            \<longleftrightarrow> (\<exists>a. (a, p) \<in> (parentRel st)\<^sup>* \<and> declaresNativeChild st objectId a)"
      proof
        assume "\<exists>a. (a, s) \<in> (parentRel st)\<^sup>* \<and> declaresNativeChild st objectId a"
        then obtain a where a: "(a, s) \<in> (parentRel st)\<^sup>*" "declaresNativeChild st objectId a"
          by blast
        from a(1) show "\<exists>a. (a, p) \<in> (parentRel st)\<^sup>* \<and> declaresNativeChild st objectId a"
        proof (cases rule: rtranclE)
          case base
          with a(2) False show ?thesis by simp
        next
          case (step q)
          with Some have "q = p" by (simp add: parentRel_iff)
          with step a(2) show ?thesis by blast
        qed
      next
        assume "\<exists>a. (a, p) \<in> (parentRel st)\<^sup>* \<and> declaresNativeChild st objectId a"
        with ps show "\<exists>a. (a, s) \<in> (parentRel st)\<^sup>* \<and> declaresNativeChild st objectId a"
          by (blast intro: rtrancl_into_rtrancl)
      qed
      with False Some less.IH [OF ps] show ?thesis
        by (simp add: isCppRegisteredObject_while_unfold)
    qed
  qed
qed

lemma isCppRegisteredObject_char:
  assumes "wf (parentRel st)"
  shows "isCppRegisteredObject st objectId element =
           Some (\<exists>a. (a, element) \<in> (parentRel st)\<^sup>+ \<and> declaresNativeChild st objectId a)"
proof (cases "parentScope (st element)")
  case None
  have "\<And>a. (a, element) \<notin> (parentRel st)\<^sup>+"
  proof
    fix a assume "(a, element) \<in> (parentRel st)\<^sup>+"
    then show False
      using None by (cases rule: tranclE) (simp_all add: parentRel_iff)
  qed
  with None show ?thesis
    by (simp add: isCppRegisteredObject_def isCppRegisteredObject_while_None)
next
  case (Some p)
  have "\<And>a. (a, element) \<in> (parentRel st)\<^sup>+ \<longleftrightarrow> (a, p) \<in> (parentRel st)\<^sup>*"
  proof
    fix a assume "(a, element) \<in> (parentRel st)\<^sup>+"
    then show "(a, p) \<in> (parentRel st)\<^sup>*"
      using Some by (cases rule: tranclE) (auto simp: parentRel_iff)
  next
    fix a assume "(a, p) \<in> (parentRel st)\<^sup>*"
    moreover have "(p, element) \<in> parentRel st"
      using Some by (simp add: parentRel_iff)
    ultimately show "(a, element) \<in> (parentRel st)\<^sup>+"
      by (rule rtrancl_into_trancl1)
  qed
  with Some show ?thesis
    by (simp add: isCppRegisteredObject_def isCppRegisteredObject_while_char [OF assms])
qed

text \<open>
  On a cyclic parent chain the walk to the root never returns: the condition on the
  parent links in the results below cannot be dropped.
\<close>

lemma getRootElement_while_cyclic:
  assumes "getRootElement_while st e = Some r"
  shows "st = cyclicStore \<longrightarrow> 1 < e"
proof (rule getRootElement_while.raw_induct
    [where P = "\<lambda>st e r. st = cyclicStore \<longrightarrow> 1 < e", OF _ assms], goal_cases)
  case (1 getRoot st e r)
  note IH = 1(1) and step = 1(2)
  show ?case
  proof
    assume st: "st = cyclicStore"
    show "1 < e"
    proof (rule ccontr)
      assume "\<not> 1 < e"
      then consider "e = 0" | "e = 1"
        by linarith
      then show False
      proof cases
        case 1
        with step st have "getRoot cyclicStore 1 = Some r"
          by (simp add: cyclicStore_def)
        with IH [of cyclicStore 1 r] show False by simp
      next
        case 2
        with step st have "getRoot cyclicStore 0 = Some r"
          by (simp add: cyclicStore_def)
        with IH [of cyclicStore 0 r] show False by simp
      qed
    qed
  qed
qed

lemma getRootElement_cyclic_never_returns:
  "getRootElement cyclicStore \<lparr>expressionText = s, bindingSourceLocation = l,
     containingElement = 0\<rparr> = None"
  using getRootElement_while_cyclic [of cyclicStore 0]
  by (cases "getRootElement_while cyclicStore 0") (auto simp: getRootElement_def)

section \<open>The native-type heuristic\<close>

text \<open>
  C9. Every entry of the allow-list \<open>cppTypes\<close> starts with \<open>Q\<close>, so the membership test
  adds nothing: for every type name, \<open>isCppRegisteredType\<close> is true exactly when the name
  starts with \<open>Q\<close>.
\<close>

theorem isCppRegisteredType_is_prefix_test:
  "list_all (\<lambda>t. startsWith t CHR ''Q'') cppTypes
   \<and> isCppRegisteredType typeName = startsWith typeName CHR ''Q''"
  using cppTypes_start_with_Q
  by (auto simp: isCppRegisteredType_def list_all_iff)

section \<open>Bindings that leave the pass manager unchanged\<close>

lemma checkCppObjectBindings_for_unchanged:
  "(\<And>b. b \<in> set bs \<Longrightarrow> checkCppObjectBinding st element b pm = Some pm)
   \<Longrightarrow> checkCppObjectBindings_for st element bs pm = Some pm"
  by (induction bs) simp_all

lemma checkCppObjectBinding_not_candidate:
  "isCppObjectBinding st (expressionText binding) element = Some False
   \<Longrightarrow> checkCppObjectBinding st element binding pm = Some pm"
  by (simp add: checkCppObjectBinding_def)

lemma isCppObjectBinding_returns:
  assumes "wf (parentRel st)"
  shows "\<exists>b. isCppObjectBinding st script element = Some b"
  by (auto simp: isCppObjectBinding_def isCppRegisteredObject_char [OF assms])

lemma checkCppObjectBinding_exempt:
  "isEnumBinding (expressionText binding) element
   \<Longrightarrow> isCppObjectBinding st (expressionText binding) element = Some b
   \<Longrightarrow> checkCppObjectBinding st element binding pm = Some pm"
  by (cases b)
    (auto simp: checkCppObjectBinding_def cppObjectReference_def Let_def split: option.splits)

section \<open>What one binding emits\<close>

lemma emitCppBindingWarning_root:
  assumes "getRootElement st binding = Some root"
  shows "emitCppBindingWarning st binding objectId propertyName pm =
     Some (pm @
       [\<lparr>message =
           ''Property binding to C++ object detected. Consider using property alias instead.'',
         warningId = qmlsaCppBindingAntiPattern,
         location = bindingSourceLocation binding,
         fixSuggestion =
           \<lparr>hint = ''Add property alias: property alias '' @ aliasNameOf objectId propertyName
                    @ '': '' @ objectId @ ''.'' @ propertyName,
            edits =
              [\<lparr>editKind = Insertion,
                editLocation =
                  setOffset (sourceLocation (st root))
                    (offset (sourceLocation (st root)) + length' (sourceLocation (st root)) - 1),
                editText = [CHR 0x0A] @ ''    property alias '' @ aliasNameOf objectId propertyName
                    @ '': '' @ objectId @ ''.'' @ propertyName\<rparr>,
               \<lparr>editKind = Replacement,
                editLocation = bindingSourceLocation binding,
                editText = aliasNameOf objectId propertyName\<rparr>]\<rparr>\<rparr>])"
  using assms
  by (simp add: emitCppBindingWarning_def Let_def setHint_def addInsertion_def
      addReplacement_def emptyFixSuggestion_def emitWarning_def)






section \<open>Termination of the parent walks\<close>

text \<open>
  C8. In a store whose parent links are finitely many and acyclic, \<open>getRootElement\<close>
  returns: its result is an element without a parent scope, reached from the binding's
  containing element along parent links. The walk of \<open>isCppRegisteredObject\<close> returns
  for every identifier and every element.

  The witness is the store with the timer.
\<close>

theorem parent_walks_terminate:
  assumes "finite (parentRel st)" and "acyclic (parentRel st)"
  shows "(\<exists>root. getRootElement st binding = Some root \<and> parentScope (st root) = None
            \<and> (root, containingElement binding) \<in> (parentRel st)\<^sup>*)
         \<and> (\<exists>b. isCppRegisteredObject st objectId element = Some b)"
proof -
  from assms have w: "wf (parentRel st)"
    by (rule wf_parentRel)
  from getRootElement_while_ends [OF w, of "containingElement binding"]
  have "\<exists>root. getRootElement st binding = Some root \<and> parentScope (st root) = None
            \<and> (root, containingElement binding) \<in> (parentRel st)\<^sup>*"
    by (simp add: getRootElement_def)
  moreover have "\<exists>b. isCppRegisteredObject st objectId element = Some b"
    by (simp add: isCppRegisteredObject_char [OF w])
  ultimately show ?thesis ..
qed

theorem parent_walks_terminate_witness:
  "finite (parentRel timerStore) \<and> acyclic (parentRel timerStore)
   \<and> getRootElement timerStore intervalBinding = Some 0
   \<and> parentScope (timerStore 0) = None
   \<and> isCppRegisteredObject timerStore ''cppObj'' 2 = Some True"
proof -
  have f: "finite (parentRel timerStore)"
    by (rule parentRel_bounded(1) [of timerStore 3, OF timerStore_parents])
  have a: "acyclic (parentRel timerStore)"
    by (rule parentRel_bounded(2) [of timerStore 3, OF timerStore_parents])
  have r: "getRootElement timerStore intervalBinding = Some 0"
    by (simp add: getRootElement_def intervalBinding_def getRootElement_while.simps
          timerStore_def)
  have o: "isCppRegisteredObject timerStore ''cppObj'' 2 = Some True"
    by (simp add: isCppRegisteredObject_def isCppRegisteredObject_while.simps timerStore_def
          isCppRegisteredType_def startsWith_def)
  from parent_walks_terminate [OF f a, of intervalBinding "''cppObj''" 2] f a r o
  show ?thesis
    by (simp add: timerStore_def)
qed

section \<open>Bindings of the root element\<close>

text \<open>
  C10. For an element without a parent scope, \<open>isCppRegisteredObject\<close> is false for every
  identifier: the loop starts at the parent scope, so the element's own children are never
  looked at. Hence \<open>isCppObjectBinding\<close> is false for every expression text, and no
  binding of such an element adds a warning.

  The witness is the root of the store with the timer: its child \<open>cppObj\<close> is a
  \<open>QTimer\<close>, its binding reads \<open>cppObj.interval\<close>, and nothing is emitted.
\<close>

theorem root_element_never_flagged:
  assumes "parentScope (st element) = None"
  shows "isCppRegisteredObject st objectId element = Some False
         \<and> isCppObjectBinding st script element = Some False
         \<and> checkCppObjectBinding st element binding pm = Some pm
         \<and> run st element pm = Some pm"
proof -
  have o: "\<And>x. isCppRegisteredObject st x element = Some False"
    using assms by (simp add: isCppRegisteredObject_def isCppRegisteredObject_while_None)
  then have b: "\<And>s. isCppObjectBinding st s element = Some False"
    by (simp add: isCppObjectBinding_def)
  then have c: "\<And>b. checkCppObjectBinding st element b pm = Some pm"
    by (simp add: checkCppObjectBinding_not_candidate)
  then have "run st element pm = Some pm"
    by (simp add: run_def checkCppObjectBindings_def checkCppObjectBindings_for_unchanged)
  with o b c show ?thesis
    by simp
qed

theorem root_element_never_flagged_witness:
  "parentScope (timerStore 0) = None
   \<and> declaresNativeChild timerStore ''cppObj'' 0
   \<and> propertyBindings (timerStore 0) = [rootBinding]
   \<and> expressionText rootBinding = ''cppObj.interval''
   \<and> isCppRegisteredObject timerStore ''cppObj'' 0 = Some False
   \<and> run timerStore 0 [] = Some []"
proof -
  have p: "parentScope (timerStore 0) = None"
    by (simp add: timerStore_def)
  have d: "declaresNativeChild timerStore ''cppObj'' 0"
    by (simp add: declaresNativeChild_def timerStore_def isCppRegisteredType_def startsWith_def)
  from root_element_never_flagged
    [of timerStore 0 "''cppObj''" "''cppObj.interval''" rootBinding "[]", OF p]
    p d
  show ?thesis
    by (simp add: timerStore_def rootBinding_def)
qed

section \<open>Evaluation\<close>

text \<open>The definitions that \<open>simp\<close> unfolds to run the check on an example.\<close>

lemmas eval_strings = trimmed_def isSpace_def cppRefPattern_def rx_identStart_def
  rx_identChar_def rx_space_def rx_dot_def parseCppObjectReference_def isEnumBinding_def
  isCppRegisteredType_def startsWith_def

lemmas eval_check = run_def checkCppObjectBindings_def checkCppObjectBinding_def
  cppObjectReference_def isCppObjectBinding_def isCppRegisteredObject_def
  isCppRegisteredObject_while.simps emitCppBindingWarning_def getRootElement_def
  getRootElement_while.simps withBindings_def Let_def setHint_def addInsertion_def
  addReplacement_def emptyFixSuggestion_def setOffset_def aliasNameOf_def

section \<open>The enum exemption\<close>




text \<open>
  C4, as the code has it. The test for \<open>::\<close> sits inside the branch that
  \<open>parseCppObjectReference\<close> guards, so for a text that contains \<open>::\<close>,
  \<open>isEnumBinding\<close> is true exactly when the text also contains a dot. Such a binding adds
  no warning either way (in a store with finitely many, acyclic parent links): without a
  dot the text does not match \<open>cppRefPattern\<close>, with a dot it is exempted.

  The witness is \<open>cppObj.interval == Timer::Fast\<close>. The counterexample to the claim as
  stated: \<open>isEnumBinding\<close> is false on \<open>Namespace::Value\<close>.
\<close>

theorem qualified_access_exempt:
  assumes "contains (expressionText binding) ''::''"
    and "finite (parentRel st)" and "acyclic (parentRel st)"
  shows "isEnumBinding (expressionText binding) element = (CHR ''.'' \<in> set (expressionText binding))
         \<and> checkCppObjectBinding st element binding pm = Some pm"
proof -
  let ?s = "expressionText binding"
  have enum: "isEnumBinding ?s element = (CHR ''.'' \<in> set ?s)"
  proof (cases "CHR ''.'' \<in> set ?s")
    case True
    from parse_with_dot [OF this] assms(1) show ?thesis
      by (auto simp: isEnumBinding_def True)
  next
    case False
    then show ?thesis
      by (simp add: isEnumBinding_def parse_without_dot)
  qed
  from assms(2,3) have "wf (parentRel st)"
    by (rule wf_parentRel)
  then obtain b where b: "isCppObjectBinding st ?s element = Some b"
    using isCppObjectBinding_returns by blast
  have "checkCppObjectBinding st element binding pm = Some pm"
  proof (cases b)
    case False
    with b show ?thesis
      by (simp add: checkCppObjectBinding_not_candidate)
  next
    case True
    with b have "hasMatch cppRefPattern ?s"
      by (auto simp: isCppObjectBinding_def split: if_splits)
    then have "CHR ''.'' \<in> set ?s"
      by (rule hasMatch_has_dot)
    with enum have "isEnumBinding ?s element"
      by simp
    with b show ?thesis
      by (simp add: checkCppObjectBinding_exempt)
  qed
  with enum show ?thesis ..
qed


theorem qualified_access_exempt_witness:
  "contains (expressionText qualifiedBinding) ''::''
   \<and> finite (parentRel timerStore) \<and> acyclic (parentRel timerStore)
   \<and> isEnumBinding (expressionText qualifiedBinding) 2
   \<and> checkCppObjectBinding timerStore 2 qualifiedBinding [] = Some []"
proof -
  have c: "contains (expressionText qualifiedBinding) ''::''"
    by (simp add: qualifiedBinding_def)
  have f: "finite (parentRel timerStore)"
    by (rule parentRel_bounded(1) [of timerStore 3, OF timerStore_parents])
  have a: "acyclic (parentRel timerStore)"
    by (rule parentRel_bounded(2) [of timerStore 3, OF timerStore_parents])
  have d: "CHR ''.'' \<in> set (expressionText qualifiedBinding)"
    by (simp add: qualifiedBinding_def)
  from qualified_access_exempt [OF c f a, of 2 "[]"] c f a d show ?thesis
    by simp
qed

theorem qualified_access_counterexample:
  "contains ''Namespace::Value'' ''::'' \<and> isEnumBinding ''Namespace::Value'' 2 = False"
  by (simp add: eval_strings)

section \<open>Candidate extraction\<close>

text \<open>
  C5, as the code has it. \<open>cppRefPattern\<close> matches exactly the texts that start with an
  identifier, white space, a dot, white space and an identifier; white space before the
  first identifier is not accepted. When it matches, the text has at least two dot
  segments, \<open>parseCppObjectReference\<close> returns the first two, trimmed, and the first of
  them is the identifier the text starts with. When it does not match,
  \<open>isCppObjectBinding\<close> is false and the binding adds no warning.

  The witness is \<open>a.b.c\<close> (candidate \<open>a\<close>, \<open>b\<close>) and \<open>1.5\<close> (no match). The
  counterexample to the claim as stated: \<open> cppObj.interval\<close>, with a leading blank,
  matches the pattern the specification words, but not \<open>cppRefPattern\<close>, and is not
  reported, while \<open>cppObj.interval\<close> in the same place is.
\<close>

theorem candidate_extraction:
  "(hasMatch cppRefPattern (expressionText binding) \<longleftrightarrow>
      (\<exists>i w1 w2 j rest. expressionText binding = i @ w1 @ ''.'' @ w2 @ j @ rest
         \<and> isIdentifier i \<and> list_all rx_space w1 \<and> list_all rx_space w2 \<and> isIdentifier j))
   \<and> (hasMatch cppRefPattern (expressionText binding) \<longrightarrow>
        (\<exists>p0 p1 rest. split CHR ''.'' (expressionText binding) = p0 # p1 # rest
           \<and> parseCppObjectReference (expressionText binding) = Some (trimmed p0, trimmed p1)
           \<and> trimmed p0 = takeWhile rx_identChar (expressionText binding)
           \<and> isIdentifier (trimmed p0)))
   \<and> (\<not> hasMatch cppRefPattern (expressionText binding) \<longrightarrow>
        isCppObjectBinding st (expressionText binding) element = Some False
        \<and> checkCppObjectBinding st element binding pm = Some pm)"
  using hasMatch_cppRefPattern_shape [of "expressionText binding"]
    candidate_of_match [of "expressionText binding"]
    checkCppObjectBinding_not_candidate [of st binding element pm]
  by (simp add: isCppObjectBinding_def)

theorem candidate_extraction_witness:
  "hasMatch cppRefPattern ''a.b.c''
   \<and> parseCppObjectReference ''a.b.c'' = Some (''a'', ''b'')
   \<and> \<not> hasMatch cppRefPattern ''1.5''
   \<and> isCppObjectBinding timerStore ''1.5'' 2 = Some False
   \<and> checkCppObjectBinding timerStore 2
         \<lparr>expressionText = ''1.5'', bindingSourceLocation = loc 60 3, containingElement = 2\<rparr> []
       = Some []"
proof -
  let ?chain = "\<lparr>expressionText = ''a.b.c'', bindingSourceLocation = loc 60 5,
    containingElement = 2\<rparr>"
  let ?number = "\<lparr>expressionText = ''1.5'', bindingSourceLocation = loc 60 3,
    containingElement = 2\<rparr>"
  have m: "hasMatch cppRefPattern ''a.b.c''" and n: "\<not> hasMatch cppRefPattern ''1.5''"
    by (simp_all add: eval_strings)
  have p: "parseCppObjectReference ''a.b.c'' = Some (''a'', ''b'')"
    by (simp add: eval_strings)
  from candidate_extraction [of ?chain timerStore 2 "[]"]
    candidate_extraction [of ?number timerStore 2 "[]"] m n p
  show ?thesis
    by simp
qed

theorem leading_whitespace_counterexample:
  "hasMatch spec_referencePattern '' cppObj.interval''
   \<and> \<not> hasMatch cppRefPattern '' cppObj.interval''
   \<and> isCppObjectBinding timerStore '' cppObj.interval'' 2 = Some False
   \<and> run (withBindings timerStore 2 [leadingSpaceBinding]) 2 [] = Some []
   \<and> map_option length (run timerStore 2 []) = Some 1"
  by (simp add: spec_referencePattern_def eval_strings eval_check timerStore_def
      leadingSpaceBinding_def intervalBinding_def emitWarning_def)

section \<open>The fix\<close>

lemma closing_offset_in_span:
  fixes off len :: "32 word"
  assumes "0 < len" and "unat off + unat len \<le> 2 ^ 32"
  shows "off \<le> off + len - 1"
proof -
  from assms(1) have n: "len \<noteq> 0"
    by (simp add: word_gt_0)
  then have l: "0 < unat len"
    by (simp add: unat_gt_0)
  have "unat (len - 1) = unat len - 1"
    using n by (rule unat_minus_one)
  with l assms(2) have "unat off + unat (len - 1) < 2 ^ LENGTH(32)"
    by simp
  then have "off \<le> off + (len - 1)"
    by (simp only: no_olen_add_nat)
  then show ?thesis
    by (simp add: add_diff_eq)
qed

lemma closing_offset_empty_span:
  fixes off :: "32 word"
  assumes "off \<noteq> 0"
  shows "off + 0 - 1 < off"
proof -
  have "unat (off - 1) = unat off - 1"
    using assms by (rule unat_minus_one)
  moreover have "0 < unat off"
    using assms by (simp add: unat_gt_0)
  ultimately show ?thesis
    by (simp add: word_less_nat_alt)
qed

text \<open>
  C6, as the code has it. In a store with finitely many, acyclic parent links,
  \<open>emitCppBindingWarning\<close> adds exactly one warning, located at the binding. Its fix
  suggestion holds two edits. The first is an insertion whose text is a line feed, four
  blanks and the declaration \<open>property alias <aliasName>: <objectId>.<propertyName>\<close>; the
  second replaces the source span of the binding by \<open><aliasName>\<close>. The alias name is
  \<open>als_<objectId>_<propertyName>\<close>.

  The witness is \<open>cppObj.interval\<close> in the store with the timer: the replacement is
  \<open>als_cppObj_interval\<close>. The counterexample to the claim as stated: the text inserted
  there is not a line feed followed by \<open>alias als_cppObj_interval: cppObj.interval\<close>; the
  indentation and the keyword \<open>property\<close> come between.
\<close>

theorem fix_texts:
  assumes "finite (parentRel st)" and "acyclic (parentRel st)"
  shows "\<exists>w. emitCppBindingWarning st binding objectId propertyName pm = Some (pm @ [w])
           \<and> location w = bindingSourceLocation binding
           \<and> map editKind (edits (fixSuggestion w)) = [Insertion, Replacement]
           \<and> map editText (edits (fixSuggestion w)) =
               [[CHR 0x0A] @ ''    property alias '' @ aliasNameOf objectId propertyName
                  @ '': '' @ objectId @ ''.'' @ propertyName,
                aliasNameOf objectId propertyName]
           \<and> editLocation (last (edits (fixSuggestion w))) = bindingSourceLocation binding
           \<and> aliasNameOf objectId propertyName = ''als_'' @ objectId @ ''_'' @ propertyName"
proof -
  from assms have "wf (parentRel st)"
    by (rule wf_parentRel)
  from getRootElement_while_ends [OF this, of "containingElement binding"]
  obtain root where "getRootElement st binding = Some root"
    by (auto simp: getRootElement_def)
  from emitCppBindingWarning_root [OF this, of objectId propertyName pm] show ?thesis
    by (simp add: aliasNameOf_def)
qed

theorem fix_texts_witness:
  "finite (parentRel timerStore) \<and> acyclic (parentRel timerStore)
   \<and> emitCppBindingWarning timerStore intervalBinding ''cppObj'' ''interval'' [] =
       Some [\<lparr>message =
           ''Property binding to C++ object detected. Consider using property alias instead.'',
         warningId = qmlsaCppBindingAntiPattern,
         location = loc 60 15,
         fixSuggestion =
           \<lparr>hint = ''Add property alias: property alias als_cppObj_interval: cppObj.interval'',
            edits =
              [\<lparr>editKind = Insertion, editLocation = loc 99 100,
                editText = CHR 0x0A # ''    property alias als_cppObj_interval: cppObj.interval''\<rparr>,
               \<lparr>editKind = Replacement, editLocation = loc 60 15,
                editText = ''als_cppObj_interval''\<rparr>]\<rparr>\<rparr>]"
proof -
  have f: "finite (parentRel timerStore)"
    by (rule parentRel_bounded(1) [of timerStore 3, OF timerStore_parents])
  have a: "acyclic (parentRel timerStore)"
    by (rule parentRel_bounded(2) [of timerStore 3, OF timerStore_parents])
  have r: "getRootElement timerStore intervalBinding = Some 0"
    by (simp add: getRootElement_def intervalBinding_def getRootElement_while.simps
        timerStore_def)
  have e: "emitCppBindingWarning timerStore intervalBinding ''cppObj'' ''interval'' [] =
       Some [\<lparr>message =
           ''Property binding to C++ object detected. Consider using property alias instead.'',
         warningId = qmlsaCppBindingAntiPattern,
         location = loc 60 15,
         fixSuggestion =
           \<lparr>hint = ''Add property alias: property alias als_cppObj_interval: cppObj.interval'',
            edits =
              [\<lparr>editKind = Insertion, editLocation = loc 99 100,
                editText = CHR 0x0A # ''    property alias als_cppObj_interval: cppObj.interval''\<rparr>,
               \<lparr>editKind = Replacement, editLocation = loc 60 15,
                editText = ''als_cppObj_interval''\<rparr>]\<rparr>\<rparr>]"
    by (subst emitCppBindingWarning_root [OF r])
      (simp add: aliasNameOf_def setOffset_def loc_def timerStore_def intervalBinding_def)
  from fix_texts [OF f a, of intervalBinding "''cppObj''" "''interval''" "[]"] f a e
  show ?thesis
    by (elim exE) (intro conjI; assumption)
qed

theorem alias_text_counterexample:
  "map_option insertionTexts
     (emitCppBindingWarning timerStore intervalBinding ''cppObj'' ''interval'' [])
     = Some [CHR 0x0A # ''    property alias als_cppObj_interval: cppObj.interval'']
   \<and> CHR 0x0A # ''    property alias als_cppObj_interval: cppObj.interval''
       \<noteq> CHR 0x0A # ''alias als_cppObj_interval: cppObj.interval''"
proof -
  have r: "getRootElement timerStore intervalBinding = Some 0"
    by (simp add: getRootElement_def intervalBinding_def getRootElement_while.simps
        timerStore_def)
  have "map_option insertionTexts
     (emitCppBindingWarning timerStore intervalBinding ''cppObj'' ''interval'' [])
     = Some [CHR 0x0A # ''    property alias als_cppObj_interval: cppObj.interval'']"
    by (subst emitCppBindingWarning_root [OF r])
      (simp add: insertionTexts_def aliasNameOf_def)
  then show ?thesis
    by simp
qed

text \<open>
  C7, as the code has it. In a store with finitely many, acyclic parent links, each warning
  carries one insertion, at the root's offset plus the root's length minus one, in
  32-bit unsigned arithmetic. That offset is not below the root's offset when the root's
  span is non-empty and ends within the 32-bit range. Nothing guards an empty span: with
  length zero the insertion lies one before a root that does not start at offset zero.

  The witness is the store with the timer (root span 0 + 100, insertion at 99), and the
  store whose root has an empty span. The counterexample to the claim as stated: a root
  with the empty span at offset 5 gets its insertion at offset 4.
\<close>

theorem insertion_offset:
  assumes "finite (parentRel st)" and "acyclic (parentRel st)"
  shows "\<exists>root. getRootElement st binding = Some root \<and> parentScope (st root) = None
           \<and> map_option insertionOffsets (emitCppBindingWarning st binding objectId propertyName [])
               = Some [offset (sourceLocation (st root)) + length' (sourceLocation (st root)) - 1]
           \<and> (0 < length' (sourceLocation (st root))
                \<and> unat (offset (sourceLocation (st root)))
                    + unat (length' (sourceLocation (st root))) \<le> 2 ^ 32
               \<longrightarrow> offset (sourceLocation (st root))
                     \<le> offset (sourceLocation (st root)) + length' (sourceLocation (st root)) - 1)
           \<and> (length' (sourceLocation (st root)) = 0 \<and> offset (sourceLocation (st root)) \<noteq> 0
               \<longrightarrow> offset (sourceLocation (st root)) + length' (sourceLocation (st root)) - 1
                     < offset (sourceLocation (st root)))"
proof -
  from assms have "wf (parentRel st)"
    by (rule wf_parentRel)
  from getRootElement_while_ends [OF this, of "containingElement binding"]
  obtain root where r: "getRootElement st binding = Some root" "parentScope (st root) = None"
    by (auto simp: getRootElement_def)
  have "map_option insertionOffsets (emitCppBindingWarning st binding objectId propertyName [])
          = Some [offset (sourceLocation (st root)) + length' (sourceLocation (st root)) - 1]"
    by (simp add: emitCppBindingWarning_root [OF r(1)] insertionOffsets_def setOffset_def)
  moreover have "0 < length' (sourceLocation (st root))
                \<and> unat (offset (sourceLocation (st root)))
                    + unat (length' (sourceLocation (st root))) \<le> 2 ^ 32
               \<longrightarrow> offset (sourceLocation (st root))
                     \<le> offset (sourceLocation (st root)) + length' (sourceLocation (st root)) - 1"
    by (simp add: closing_offset_in_span)
  moreover have "length' (sourceLocation (st root)) = 0 \<and> offset (sourceLocation (st root)) \<noteq> 0
               \<longrightarrow> offset (sourceLocation (st root)) + length' (sourceLocation (st root)) - 1
                     < offset (sourceLocation (st root))"
    using closing_offset_empty_span [of "offset (sourceLocation (st root))"] by simp
  ultimately show ?thesis
    using r by blast
qed

theorem insertion_offset_witness:
  "finite (parentRel timerStore) \<and> acyclic (parentRel timerStore)
   \<and> getRootElement timerStore intervalBinding = Some 0
   \<and> sourceLocation (timerStore 0) = loc 0 100
   \<and> map_option insertionOffsets
         (emitCppBindingWarning timerStore intervalBinding ''cppObj'' ''interval'' []) = Some [99]
   \<and> offset (sourceLocation (timerStore 0)) \<le> 99
   \<and> finite (parentRel emptySpanStore) \<and> acyclic (parentRel emptySpanStore)
   \<and> getRootElement emptySpanStore emptySpanBinding = Some 0
   \<and> length' (sourceLocation (emptySpanStore 0)) = 0
   \<and> offset (sourceLocation (emptySpanStore 0)) \<noteq> 0
   \<and> offset (sourceLocation (emptySpanStore 0)) + length' (sourceLocation (emptySpanStore 0)) - 1
       < offset (sourceLocation (emptySpanStore 0))"
proof -
  have f: "finite (parentRel timerStore)"
    by (rule parentRel_bounded(1) [of timerStore 3, OF timerStore_parents])
  have a: "acyclic (parentRel timerStore)"
    by (rule parentRel_bounded(2) [of timerStore 3, OF timerStore_parents])
  have r: "getRootElement timerStore intervalBinding = Some 0"
    by (simp add: getRootElement_def intervalBinding_def getRootElement_while.simps
        timerStore_def)
  have l: "sourceLocation (timerStore 0) = loc 0 100"
    by (simp add: timerStore_def)
  from insertion_offset [OF f a, of intervalBinding "''cppObj''" "''interval''"] r l
  have 1: "map_option insertionOffsets
         (emitCppBindingWarning timerStore intervalBinding ''cppObj'' ''interval'' []) = Some [99]
     \<and> offset (sourceLocation (timerStore 0)) \<le> 99"
    by (simp add: loc_def)
  have f': "finite (parentRel emptySpanStore)"
    by (rule parentRel_bounded(1) [of emptySpanStore 2, OF emptySpanStore_parents])
  have a': "acyclic (parentRel emptySpanStore)"
    by (rule parentRel_bounded(2) [of emptySpanStore 2, OF emptySpanStore_parents])
  have r': "getRootElement emptySpanStore emptySpanBinding = Some 0"
    by (simp add: getRootElement_def emptySpanBinding_def getRootElement_while.simps
        emptySpanStore_def)
  have l': "length' (sourceLocation (emptySpanStore 0)) = 0
     \<and> offset (sourceLocation (emptySpanStore 0)) \<noteq> 0"
    by (simp add: emptySpanStore_def loc_def)
  from insertion_offset [OF f' a', of emptySpanBinding "''cppObj''" "''interval''"] r' l'
  have 2: "offset (sourceLocation (emptySpanStore 0))
       + length' (sourceLocation (emptySpanStore 0)) - 1
       < offset (sourceLocation (emptySpanStore 0))"
    by simp
  from f a r l 1 f' a' r' l' 2 show ?thesis
    by (simp only: simp_thms)
qed

theorem empty_root_span_counterexample:
  "getRootElement emptySpanStore emptySpanBinding = Some 0
   \<and> sourceLocation (emptySpanStore 0) = loc 5 0
   \<and> map_option insertionOffsets
         (emitCppBindingWarning emptySpanStore emptySpanBinding ''cppObj'' ''interval'' [])
       = Some [4]
   \<and> \<not> offset (sourceLocation (emptySpanStore 0)) \<le> (4 :: 32 word)"
proof -
  have r: "getRootElement emptySpanStore emptySpanBinding = Some 0"
    by (simp add: getRootElement_def emptySpanBinding_def getRootElement_while.simps
        emptySpanStore_def)
  have "map_option insertionOffsets
         (emitCppBindingWarning emptySpanStore emptySpanBinding ''cppObj'' ''interval'' [])
       = Some [4]"
    by (subst emitCppBindingWarning_root [OF r])
      (simp add: insertionOffsets_def setOffset_def emptySpanStore_def loc_def)
  with r show ?thesis
    by (simp add: emptySpanStore_def loc_def)
qed

section \<open>Scope resolution\<close>

text \<open>
  C2, as the code has it. In a store with finitely many, acyclic parent links,
  \<open>isCppRegisteredObject\<close> is true exactly when some scope that strictly encloses the
  element has a direct child with the identifier and a native base type. A nearer
  declaration of the identifier with a plain type does not end the search. So when the
  nearest enclosing scope declares \<open>x\<close> with a plain type, the result is false, and the
  binding adds no warning, provided that no enclosing scope declares a child \<open>x\<close> with a
  native base type.

  The witness is the identifier \<open>user\<close> in the store with the shadowed \<open>x\<close>. The
  counterexample to the claim as stated is \<open>x\<close> in the same store: the nearest scope
  declares it as \<open>MyItem\<close>, the search as the specification words it answers false, yet
  \<open>isCppRegisteredObject\<close> is true and the binding \<open>x.y\<close> is reported.
\<close>

theorem any_enclosing_native_declaration:
  assumes "finite (parentRel st)" and "acyclic (parentRel st)"
  shows "isCppRegisteredObject st x E =
           Some (\<exists>a. (a, E) \<in> (parentRel st)\<^sup>+ \<and> declaresNativeChild st x a)
         \<and> (\<not> (\<exists>a. (a, E) \<in> (parentRel st)\<^sup>+ \<and> declaresNativeChild st x a)
              \<and> trimmed (hd (split CHR ''.'' (expressionText binding))) = x
             \<longrightarrow> isCppObjectBinding st (expressionText binding) E = Some False
                 \<and> checkCppObjectBinding st E binding pm = Some pm)"
proof -
  from assms have w: "wf (parentRel st)"
    by (rule wf_parentRel)
  have 1: "isCppRegisteredObject st x E =
           Some (\<exists>a. (a, E) \<in> (parentRel st)\<^sup>+ \<and> declaresNativeChild st x a)"
    by (rule isCppRegisteredObject_char [OF w])
  have 2: "isCppObjectBinding st (expressionText binding) E = Some False
           \<and> checkCppObjectBinding st E binding pm = Some pm"
    if "\<not> (\<exists>a. (a, E) \<in> (parentRel st)\<^sup>+ \<and> declaresNativeChild st x a)"
      and "trimmed (hd (split CHR ''.'' (expressionText binding))) = x"
  proof -
    from 1 that have "isCppObjectBinding st (expressionText binding) E = Some False"
      by (simp add: isCppObjectBinding_def)
    then show ?thesis
      by (simp add: checkCppObjectBinding_not_candidate)
  qed
  from 1 2 show ?thesis
    by blast
qed

theorem any_enclosing_native_declaration_witness:
  "finite (parentRel shadowStore) \<and> acyclic (parentRel shadowStore)
   \<and> parentScope (shadowStore 4) = Some 2 \<and> childScopes (shadowStore 2) = [3, 4]
   \<and> id' (shadowStore 4) = ''user'' \<and> \<not> isCppRegisteredType (baseTypeName (shadowStore 4))
   \<and> isCppRegisteredObject shadowStore ''user'' 4 = Some False
   \<and> checkCppObjectBinding shadowStore 4 userBinding [] = Some []"
proof -
  have f: "finite (parentRel shadowStore)"
    by (rule parentRel_bounded(1) [of shadowStore 5, OF shadowStore_parents])
  have a: "acyclic (parentRel shadowStore)"
    by (rule parentRel_bounded(2) [of shadowStore 5, OF shadowStore_parents])
  note t = any_enclosing_native_declaration [OF f a, of "''user''" 4 userBinding "[]"]
  have ev: "isCppRegisteredObject shadowStore ''user'' 4 = Some False"
    by (simp add: isCppRegisteredObject_def isCppRegisteredObject_while.simps shadowStore_def
        isCppRegisteredType_def startsWith_def cppTypes_def)
  from t [THEN conjunct1] ev have n: "\<not> (\<exists>a. (a, 4) \<in> (parentRel shadowStore)\<^sup>+
      \<and> declaresNativeChild shadowStore ''user'' a)"
    by (simp only: option.inject simp_thms)
  have tr: "trimmed (hd (split CHR ''.'' (expressionText userBinding))) = ''user''"
    by (simp add: userBinding_def trimmed_def isSpace_def)
  have c: "checkCppObjectBinding shadowStore 4 userBinding [] = Some []"
    by (rule t [THEN conjunct2, THEN mp, OF conjI [OF n tr], THEN conjunct2])
  have s: "parentScope (shadowStore 4) = Some 2 \<and> childScopes (shadowStore 2) = [3, 4]
   \<and> id' (shadowStore 4) = ''user'' \<and> \<not> isCppRegisteredType (baseTypeName (shadowStore 4))"
    by (simp add: shadowStore_def isCppRegisteredType_def startsWith_def cppTypes_def)
  from f a s ev c show ?thesis
    by (simp only: simp_thms)
qed

theorem shadowing_counterexample:
  "parentScope (shadowStore 4) = Some 2 \<and> childScopes (shadowStore 2) = [3, 4]
   \<and> id' (shadowStore 3) = ''x'' \<and> \<not> isCppRegisteredType (baseTypeName (shadowStore 3))
   \<and> spec_isNativeObjectReference shadowStore ''x'' 4 = Some False
   \<and> isCppRegisteredObject shadowStore ''x'' 4 = Some True
   \<and> map_option length (run shadowStore 4 []) = Some 1"
  by (simp add: spec_isNativeObjectReference_def spec_isNativeObjectReference_walk.simps
      eval_strings eval_check shadowStore_def shadowBinding_def emitWarning_def cppTypes_def)

section \<open>Reported bindings\<close>













end
